theory Spec2Isabelle
  imports Complex_Main
begin

section \<open>Data model of src/App.jsx\<close>

text \<open>
  The page in \<^verbatim>\<open>src/App.jsx\<close> has three pieces of logic: the per-frame camera
  update of \<^verbatim>\<open>FlyCamera\<close>, the one-time bounds computation of
  \<^verbatim>\<open>MontVallonModel\<close>, and the two sliders of \<^verbatim>\<open>App\<close>.

  JavaScript numbers are idealised as mathematical reals: \<^verbatim>\<open>Math.min\<close>,
  \<^verbatim>\<open>Math.max\<close>, \<^verbatim>\<open>Math.sin\<close> and \<^verbatim>\<open>Math.cos\<close> are
  \<^const>\<open>min\<close>, \<^const>\<open>max\<close>, \<^const>\<open>sin\<close> and \<^const>\<open>cos\<close> on
  \<^typ>\<open>real\<close>. Rounding, infinities and NaN are outside the model.
\<close>

text \<open>
  A point: a three.js \<^verbatim>\<open>Vector3\<close>, and also the three-element arrays
  \<^verbatim>\<open>[x, y, z]\<close> that the components hand to each other (the source only ever
  builds them with exactly three entries and reads indices 0, 1, 2).
\<close>

record vec3 =
  vx :: real
  vy :: real
  vz :: real

definition vec :: "real \<Rightarrow> real \<Rightarrow> real \<Rightarrow> vec3" where
  "vec a b c = \<lparr>vx = a, vy = b, vz = c\<rparr>"

text \<open>
  The camera object obtained from \<^verbatim>\<open>useThree()\<close>. Of its state the source writes
  the position (\<^verbatim>\<open>camera.position.set\<close>), the orientation
  (\<^verbatim>\<open>camera.lookAt\<close>, kept here as the point looked at) and the field of view
  (\<^verbatim>\<open>camera.fov\<close>).
\<close>

record camera =
  position :: vec3
  lookAt :: vec3
  cam_fov :: real

text \<open>
  The props of \<^verbatim>\<open>FlyCamera({ target = [0, 0.5, 0], speed = 0.15, fov = 55 })\<close>.
  A prop that the caller leaves out is \<^const>\<open>None\<close> and takes the default of the
  destructuring pattern.
\<close>

record fly_props_in =
  target_in :: "vec3 option"
  speed_in :: "real option"
  fov_in :: "real option"

record fly_props =
  target :: vec3
  speed :: real
  fov :: real

definition FlyCamera_props :: "fly_props_in \<Rightarrow> fly_props" where
  "FlyCamera_props p =
     \<lparr>target = (case target_in p of None \<Rightarrow> vec 0 0.5 0 | Some v \<Rightarrow> v),
      speed = (case speed_in p of None \<Rightarrow> 0.15 | Some v \<Rightarrow> v),
      fov = (case fov_in p of None \<Rightarrow> 55 | Some v \<Rightarrow> v)\<rparr>"

text \<open>
  What a mounted \<^verbatim>\<open>FlyCamera\<close> owns between frames: the accumulator
  \<^verbatim>\<open>t = useRef(0)\<close> and the camera it drives. The ref survives re-renders, so
  a change of props does not touch it.
\<close>

record fly_state =
  t_current :: real
  cam :: camera

section \<open>FlyCamera\<close>

text \<open>The four local constants of the frame callback, as functions of \<^verbatim>\<open>t.current\<close>.\<close>

definition orbitAngle :: "real \<Rightarrow> real" where
  "orbitAngle t = t * 0.3"

definition zoomFactor :: "real \<Rightarrow> real" where
  "zoomFactor t = min (t * 1.2) 6"

definition radius :: "real \<Rightarrow> real" where
  "radius t = max 20 (26 - zoomFactor t * 1.5)"

definition height :: "real \<Rightarrow> real" where
  "height t = 12 + sin (t * 0.4) * 3"

text \<open>
  The callback given to \<^verbatim>\<open>useFrame\<close>: it first advances the accumulator
  (\<^verbatim>\<open>t.current += delta * speed\<close>), then sets position and orientation from the
  new value.
\<close>

definition useFrame :: "fly_props \<Rightarrow> real \<Rightarrow> fly_state \<Rightarrow> fly_state" where
  "useFrame p delta s =
     (let t' = t_current s + delta * speed p in
      \<lparr>t_current = t',
       cam = (cam s)
         \<lparr>position :=
            vec (vx (target p) + cos (orbitAngle t') * radius t')
                (vy (target p) + height t')
                (vz (target p) + sin (orbitAngle t') * radius t'),
          lookAt := target p\<rparr>\<rparr>)"

text \<open>
  The effect \<^verbatim>\<open>camera.fov = fov; camera.updateProjectionMatrix()\<close>, run when
  \<^verbatim>\<open>fov\<close> changes. The projection matrix is a function of the camera's
  \<^verbatim>\<open>fov\<close> and is not kept separately.
\<close>

definition useEffect_fov :: "fly_props \<Rightarrow> fly_state \<Rightarrow> fly_state" where
  "useEffect_fov p s = s\<lparr>cam := (cam s)\<lparr>cam_fov := fov p\<rparr>\<rparr>"

text \<open>
  Mounting \<^verbatim>\<open>FlyCamera\<close> on a camera: the ref starts at
  \<^verbatim>\<open>useRef(0)\<close>, and the effect runs once for the first \<^verbatim>\<open>fov\<close>.
\<close>

definition FlyCamera_mount :: "fly_props \<Rightarrow> camera \<Rightarrow> fly_state" where
  "FlyCamera_mount p c = useEffect_fov p \<lparr>t_current = 0, cam = c\<rparr>"

text \<open>
  A re-render of \<^verbatim>\<open>FlyCamera\<close> with new props: the effect has the dependency
  list \<^verbatim>\<open>[camera, fov]\<close>, so it runs again only when \<^verbatim>\<open>fov\<close> differs;
  the ref \<^verbatim>\<open>t\<close> is kept as it is.
\<close>

definition FlyCamera_rerender :: "fly_props \<Rightarrow> fly_props \<Rightarrow> fly_state \<Rightarrow> fly_state" where
  "FlyCamera_rerender old new s = (if fov new \<noteq> fov old then useEffect_fov new s else s)"

section \<open>MontVallonModel and Scene\<close>

text \<open>
  \<^verbatim>\<open>Box3\<close> and \<^verbatim>\<open>Vector3\<close> are imported from three.js at line 4; the
  library is not part of the repository. The definitions of this section up to
  \<open>getCenter\<close> follow what the library does on the call of line 73,
  \<^verbatim>\<open>new Box3().setFromObject(ref.current)\<close>, where the second argument
  \<^verbatim>\<open>precise\<close> is left at its default \<^verbatim>\<open>false\<close>.
\<close>

text \<open>
  The affine part of a \<^verbatim>\<open>Matrix4\<close> (rows 1 to 3; the last row of a world matrix
  is 0 0 0 1), and \<^verbatim>\<open>Vector3.applyMatrix4\<close>.
\<close>

record matrix4 =
  m11 :: real  m12 :: real  m13 :: real  m14 :: real
  m21 :: real  m22 :: real  m23 :: real  m24 :: real
  m31 :: real  m32 :: real  m33 :: real  m34 :: real

definition Matrix4_identity :: matrix4 where
  "Matrix4_identity =
     \<lparr>m11 = 1, m12 = 0, m13 = 0, m14 = 0,
      m21 = 0, m22 = 1, m23 = 0, m24 = 0,
      m31 = 0, m32 = 0, m33 = 1, m34 = 0\<rparr>"

definition Vector3_applyMatrix4 :: "matrix4 \<Rightarrow> vec3 \<Rightarrow> vec3" where
  "Vector3_applyMatrix4 m v =
     vec (m11 m * vx v + m12 m * vy v + m13 m * vz v + m14 m)
         (m21 m * vx v + m22 m * vy v + m23 m * vz v + m24 m)
         (m31 m * vx v + m32 m * vy v + m33 m * vz v + m34 m)"

text \<open>
  The object in \<^verbatim>\<open>ref.current\<close>: the meshes that the traversal of
  \<^verbatim>\<open>expandByObject\<close> meets, in its order, each with its world matrix and the
  vertices of its geometry in local coordinates. A mesh without vertices has no extent.
\<close>

record mesh =
  matrixWorld :: matrix4
  vertices :: "vec3 list"

type_synonym object3d = "mesh list"

text \<open>
  An axis-aligned box, given by its least and greatest corner (the fields
  \<^verbatim>\<open>min\<close> and \<^verbatim>\<open>max\<close> of \<^verbatim>\<open>Box3\<close>). The empty box that
  \<^verbatim>\<open>new Box3()\<close> and \<^verbatim>\<open>makeEmpty\<close> create, for which
  \<^verbatim>\<open>isEmpty()\<close> holds, is \<^const>\<open>None\<close>.
\<close>

record box3 =
  box_min :: vec3
  box_max :: vec3

definition vec_min :: "vec3 \<Rightarrow> vec3 \<Rightarrow> vec3" where
  "vec_min a b = vec (min (vx a) (vx b)) (min (vy a) (vy b)) (min (vz a) (vz b))"

definition vec_max :: "vec3 \<Rightarrow> vec3 \<Rightarrow> vec3" where
  "vec_max a b = vec (max (vx a) (vx b)) (max (vy a) (vy b)) (max (vz a) (vz b))"

text \<open>\<^verbatim>\<open>Box3.expandByPoint\<close>: \<^verbatim>\<open>this.min.min(point); this.max.max(point)\<close>.\<close>

fun expandByPoint :: "box3 option \<Rightarrow> vec3 \<Rightarrow> box3 option" where
  "expandByPoint None p = Some \<lparr>box_min = p, box_max = p\<rparr>"
| "expandByPoint (Some b) p =
     Some \<lparr>box_min = vec_min (box_min b) p, box_max = vec_max (box_max b) p\<rparr>"

text \<open>\<^verbatim>\<open>Box3.setFromPoints\<close>: empty the box, then take every point in.\<close>

definition setFromPoints :: "vec3 list \<Rightarrow> box3 option" where
  "setFromPoints ps = foldl expandByPoint None ps"

text \<open>
  \<^verbatim>\<open>BufferGeometry.computeBoundingBox\<close>: the box of the vertices, in the local
  coordinates of the geometry.
\<close>

definition computeBoundingBox :: "vec3 list \<Rightarrow> box3 option" where
  "computeBoundingBox vs = setFromPoints vs"

text \<open>
  \<^verbatim>\<open>Box3.applyMatrix4\<close>: an empty box stays empty; otherwise the box is set
  from its eight corners, each transformed by the matrix.
\<close>

definition corners :: "box3 \<Rightarrow> vec3 list" where
  "corners b =
     [vec (vx (box_min b)) (vy (box_min b)) (vz (box_min b)),
      vec (vx (box_min b)) (vy (box_min b)) (vz (box_max b)),
      vec (vx (box_min b)) (vy (box_max b)) (vz (box_min b)),
      vec (vx (box_min b)) (vy (box_max b)) (vz (box_max b)),
      vec (vx (box_max b)) (vy (box_min b)) (vz (box_min b)),
      vec (vx (box_max b)) (vy (box_min b)) (vz (box_max b)),
      vec (vx (box_max b)) (vy (box_max b)) (vz (box_min b)),
      vec (vx (box_max b)) (vy (box_max b)) (vz (box_max b))]"

definition Box3_applyMatrix4 :: "box3 option \<Rightarrow> matrix4 \<Rightarrow> box3 option" where
  "Box3_applyMatrix4 box m =
     (case box of
        None \<Rightarrow> None
      | Some b \<Rightarrow> setFromPoints (map (Vector3_applyMatrix4 m) (corners b)))"

text \<open>\<^verbatim>\<open>Box3.union\<close>: \<^verbatim>\<open>this.min.min(box.min); this.max.max(box.max)\<close>.\<close>

fun Box3_union :: "box3 option \<Rightarrow> box3 option \<Rightarrow> box3 option" where
  "Box3_union None c = c"
| "Box3_union (Some b) None = Some b"
| "Box3_union (Some b) (Some c) =
     Some \<lparr>box_min = vec_min (box_min b) (box_min c), box_max = vec_max (box_max b) (box_max c)\<rparr>"

text \<open>
  \<^verbatim>\<open>Box3.expandByObject\<close> on one mesh with \<^verbatim>\<open>precise\<close> false: the bounding
  box of the geometry is copied, transformed by the world matrix of the mesh, and
  united with the box so far.
\<close>

definition expandByObject :: "box3 option \<Rightarrow> mesh \<Rightarrow> box3 option" where
  "expandByObject box me =
     Box3_union box (Box3_applyMatrix4 (computeBoundingBox (vertices me)) (matrixWorld me))"

text \<open>\<^verbatim>\<open>Box3.setFromObject\<close>: empty the box, then expand it by every mesh.\<close>

definition setFromObject :: "object3d \<Rightarrow> box3 option" where
  "setFromObject obj = foldl expandByObject None obj"

text \<open>
  \<^verbatim>\<open>Box3.getCenter\<close>: the point \<open>(0, 0, 0)\<close> for an empty box, otherwise
  \<open>(min + max) * 0.5\<close>.
\<close>

definition getCenter :: "box3 option \<Rightarrow> vec3" where
  "getCenter box =
     (case box of
        None \<Rightarrow> vec 0 0 0
      | Some b \<Rightarrow> vec ((vx (box_min b) + vx (box_max b)) * 0.5)
                      ((vy (box_min b) + vy (box_max b)) * 0.5)
                      ((vz (box_min b) + vz (box_max b)) * 0.5))"

text \<open>
  The world transform that \<^verbatim>\<open>Scene\<close> gives the model at lines 153 to 155:
  \<^verbatim>\<open>position={[0, -2.5, 0]}\<close>, \<^verbatim>\<open>rotation={[0, Math.PI * 0.25, 0]}\<close>,
  \<^verbatim>\<open>scale={3.5}\<close>, composed as translation after rotation about the y axis after
  scaling.
\<close>

definition Scene_model_matrix :: matrix4 where
  "Scene_model_matrix =
     \<lparr>m11 = cos (pi * 0.25) * 3.5, m12 = 0, m13 = sin (pi * 0.25) * 3.5, m14 = 0,
      m21 = 0, m22 = 3.5, m23 = 0, m24 = - 2.5,
      m31 = - sin (pi * 0.25) * 3.5, m32 = 0, m33 = cos (pi * 0.25) * 3.5, m34 = 0\<rparr>"

text \<open>
  The world-space geometry of an object: every vertex under the world matrix of its
  mesh. And the points that the call of line 73 does box: the transformed corners of
  the local bounding box of each mesh.
\<close>

definition worldPoints :: "object3d \<Rightarrow> vec3 list" where
  "worldPoints obj =
     concat (map (\<lambda>me. map (Vector3_applyMatrix4 (matrixWorld me)) (vertices me)) obj)"

definition cornerPoints :: "object3d \<Rightarrow> vec3 list" where
  "cornerPoints obj =
     concat (map (\<lambda>me. case computeBoundingBox (vertices me) of
                          None \<Rightarrow> []
                        | Some l \<Rightarrow> map (Vector3_applyMatrix4 (matrixWorld me)) (corners l)) obj)"

text \<open>
  The bounds computation as the specification words it: "compute the minimal
  axis-aligned box enclosing all of the object's world-space geometry; return its
  geometric center". It is compared with the code below.
\<close>

definition spec_computeFocus :: "object3d \<Rightarrow> vec3" where
  "spec_computeFocus obj = getCenter (setFromPoints (worldPoints obj))"

text \<open>What it means for a box to enclose a point, and to enclose another box.\<close>

definition containsPoint :: "box3 \<Rightarrow> vec3 \<Rightarrow> bool" where
  "containsPoint b p =
     (vx (box_min b) \<le> vx p \<and> vx p \<le> vx (box_max b) \<and>
      vy (box_min b) \<le> vy p \<and> vy p \<le> vy (box_max b) \<and>
      vz (box_min b) \<le> vz p \<and> vz p \<le> vz (box_max b))"

definition containsBox :: "box3 \<Rightarrow> box3 \<Rightarrow> bool" where
  "containsBox b c =
     (vx (box_min b) \<le> vx (box_min c) \<and> vx (box_max c) \<le> vx (box_max b) \<and>
      vy (box_min b) \<le> vy (box_min c) \<and> vy (box_max c) \<le> vy (box_max b) \<and>
      vz (box_min b) \<le> vz (box_min c) \<and> vz (box_max c) \<le> vz (box_max b))"

definition encloses :: "box3 option \<Rightarrow> vec3 \<Rightarrow> bool" where
  "encloses box p = (case box of None \<Rightarrow> False | Some b \<Rightarrow> containsPoint b p)"

definition boxWithin :: "box3 option \<Rightarrow> box3 \<Rightarrow> bool" where
  "boxWithin box c = (case box of None \<Rightarrow> True | Some b \<Rightarrow> containsBox c b)"

text \<open>
  The state of \<^verbatim>\<open>Scene\<close>: \<^verbatim>\<open>const [target, setTarget] = useState([0, 0.5, 0])\<close>.
\<close>

record scene_state =
  scene_target :: vec3

definition Scene_init :: scene_state where
  "Scene_init = \<lparr>scene_target = vec 0 0.5 0\<rparr>"

definition setTarget :: "vec3 \<Rightarrow> scene_state \<Rightarrow> scene_state" where
  "setTarget v sc = sc\<lparr>scene_target := v\<rparr>"

text \<open>
  The layout effect of \<^verbatim>\<open>MontVallonModel\<close>. It returns at once when
  \<^verbatim>\<open>ref.current\<close> is unset; otherwise it computes the box and its centre and
  calls \<^verbatim>\<open>onBounds\<close>, if there is one, with \<^verbatim>\<open>[center.x, center.y, center.z]\<close>.
  There is no other check between the centre and the callback.
\<close>

definition useLayoutEffect_bounds ::
  "object3d option \<Rightarrow> (vec3 \<Rightarrow> 'st \<Rightarrow> 'st) option \<Rightarrow> 'st \<Rightarrow> 'st" where
  "useLayoutEffect_bounds ref_current onBounds st =
     (case ref_current of
        None \<Rightarrow> st
      | Some obj \<Rightarrow>
          (let box = setFromObject obj;
               center = getCenter box
           in case onBounds of
                None \<Rightarrow> st
              | Some cb \<Rightarrow> cb (vec (vx center) (vy center) (vz center)) st))"

section \<open>App\<close>

text \<open>
  The state of \<^verbatim>\<open>App\<close>: \<^verbatim>\<open>useState(0.15)\<close> for the flyover speed and
  \<^verbatim>\<open>useState(75)\<close> for the perspective.
\<close>

record app_state =
  flySpeed :: real
  perspective :: real

definition App_init :: app_state where
  "App_init = \<lparr>flySpeed = 0.15, perspective = 75\<rparr>"

text \<open>
  The values an \<^verbatim>\<open><input type="range" min max step>\<close> can hold: the browser keeps
  the control on \<^verbatim>\<open>min + k * step\<close> and never beyond \<^verbatim>\<open>max\<close>.
\<close>

definition range_values :: "real \<Rightarrow> real \<Rightarrow> real \<Rightarrow> real list" where
  "range_values lo hi st =
     map (\<lambda>k. lo + real k * st) [0 ..< Suc (nat \<lfloor>(hi - lo) / st\<rfloor>)]"

text \<open>
  A change event of one of the two sliders, carrying
  \<^verbatim>\<open>parseFloat(e.target.value)\<close>. An event that a slider of the page can emit has a
  value of that slider's range: \<^verbatim>\<open>min="0.05" max="0.35" step="0.01"\<close> for the
  speed, \<^verbatim>\<open>min="50" max="100" step="1"\<close> for the perspective.
\<close>

datatype ui_event = SpeedChange real | PerspectiveChange real

fun slider_event :: "ui_event \<Rightarrow> bool" where
  "slider_event (SpeedChange v) = (v \<in> set (range_values 0.05 0.35 0.01))"
| "slider_event (PerspectiveChange v) = (v \<in> set (range_values 50 100 1))"

fun onChange :: "ui_event \<Rightarrow> app_state \<Rightarrow> app_state" where
  "onChange (SpeedChange v) a = a\<lparr>flySpeed := v\<rparr>"
| "onChange (PerspectiveChange v) a = a\<lparr>perspective := v\<rparr>"

definition App_run :: "ui_event list \<Rightarrow> app_state" where
  "App_run es = foldl (\<lambda>a e. onChange e a) App_init es"

text \<open>
  The camera that \<^verbatim>\<open><Canvas camera={{ position: [0, 50, 150], fov: perspective, ... }}>\<close>
  creates, before \<^verbatim>\<open>FlyCamera\<close> has moved it; a camera created without a
  rotation looks at the origin.
\<close>

definition Canvas_camera :: "app_state \<Rightarrow> camera" where
  "Canvas_camera a = \<lparr>position = vec 0 50 150, lookAt = vec 0 0 0, cam_fov = perspective a\<rparr>"

text \<open>
  The props that reach the camera:
  \<^verbatim>\<open><Scene flySpeed={flySpeed} perspective={perspective} />\<close> in \<^verbatim>\<open>App\<close> and
  \<^verbatim>\<open><FlyCamera target={target} speed={flySpeed} fov={perspective} />\<close> in
  \<^verbatim>\<open>Scene\<close>.
\<close>

definition Scene_props :: "app_state \<Rightarrow> scene_state \<Rightarrow> fly_props" where
  "Scene_props a sc =
     FlyCamera_props
       \<lparr>target_in = Some (scene_target sc),
        speed_in = Some (flySpeed a),
        fov_in = Some (perspective a)\<rparr>"

section \<open>Properties of the frame callback\<close>

lemma zoomFactor_le_cap: "zoomFactor t \<le> 6"
  by (simp add: zoomFactor_def)

lemma radius_ge_floor: "20 \<le> radius t"
  by (simp add: radius_def)

lemma height_in_band: "9 \<le> height t \<and> height t \<le> 15"
proof -
  have "- 1 \<le> sin (t * 0.4)" and "sin (t * 0.4) \<le> 1"
    by simp_all
  then show ?thesis
    unfolding height_def by linarith
qed

lemma horizontal_offset_sq:
  "(vx (position (cam (useFrame p delta s))) - vx (target p))\<^sup>2
   + (vz (position (cam (useFrame p delta s))) - vz (target p))\<^sup>2
   = (radius (t_current (useFrame p delta s)))\<^sup>2"
proof -
  have eq: "(cos a)\<^sup>2 * r\<^sup>2 + (sin a)\<^sup>2 * r\<^sup>2 = r\<^sup>2" for a r :: real
  proof -
    have "(cos a)\<^sup>2 * r\<^sup>2 + (sin a)\<^sup>2 * r\<^sup>2 = ((cos a)\<^sup>2 + (sin a)\<^sup>2) * r\<^sup>2"
      by (simp only: distrib_right)
    then show ?thesis by simp
  qed
  show ?thesis
    by (simp add: useFrame_def Let_def vec_def power_mult_distrib eq)
qed

text \<open>
  C1. Let a frame of length \<open>delta\<close> start with the accumulator at \<open>t0\<close>, and let
  \<open>t = t0 + delta * speed\<close>. The frame leaves \<open>t\<close> in \<^verbatim>\<open>t.current\<close>, puts the
  camera at \<open>(fx + cos (0.3 t) r, fy + 12 + 3 sin (0.4 t), fz + sin (0.3 t) r)\<close> with
  \<open>r = max 20 (26 - 1.5 min (1.2 t) 6)\<close> and \<open>f\<close> the focus point, and makes it look
  at \<open>f\<close>. Every elapsed time \<open>e\<close>, non-negative or not, is reached this way (a frame
  of length 0 from accumulator \<open>e\<close>) and gives the pose of that formula at \<open>e\<close>. At
  elapsed time 0 (a freshly mounted camera, a frame of length 0, speed 1) and focus
  \<open>(0, 0, 0)\<close> the position is \<open>(26, 12, 0)\<close> and the camera looks at \<open>(0, 0, 0)\<close>.
\<close>

theorem C1_camera_pose:
  "(let t = t_current s + delta * speed p;
        r = max 20 (26 - 1.5 * min (1.2 * t) 6);
        s' = useFrame p delta s
    in t_current s' = t
       \<and> position (cam s') =
           vec (vx (target p) + cos (0.3 * t) * r)
               (vy (target p) + 12 + 3 * sin (0.4 * t))
               (vz (target p) + sin (0.3 * t) * r)
       \<and> lookAt (cam s') = target p)
   \<and> (let r = max 20 (26 - 1.5 * min (1.2 * e) 6);
          s' = useFrame p 0 (s\<lparr>t_current := e\<rparr>)
      in t_current s' = e
         \<and> position (cam s') =
             vec (vx (target p) + cos (0.3 * e) * r)
                 (vy (target p) + 12 + 3 * sin (0.4 * e))
                 (vz (target p) + sin (0.3 * e) * r)
         \<and> lookAt (cam s') = target p)
   \<and> (let p0 = \<lparr>target = vec 0 0 0, speed = 1, fov = 55\<rparr>;
          s0 = useFrame p0 0 (FlyCamera_mount p0 c)
      in t_current s0 = 0 \<and> position (cam s0) = vec 26 12 0 \<and> lookAt (cam s0) = vec 0 0 0)"
  by (simp add: useFrame_def Let_def orbitAngle_def zoomFactor_def radius_def height_def
      FlyCamera_mount_def useEffect_fov_def vec_def mult.commute)

text \<open>
  C3. The orbit radius \<open>max 20 (26 - 1.5 min (1.2 t) 6)\<close> is at least 20 for every
  \<open>t\<close> (non-negative or not). After every frame the horizontal distance between the
  camera and the point it looks at is that radius, hence at least 20, and the camera's
  position differs from the point it looks at.
\<close>

theorem C3_radius_floor:
  "radius t = max 20 (26 - 1.5 * min (1.2 * t) 6)
   \<and> 20 \<le> radius t
   \<and> (let s' = useFrame p delta s
      in lookAt (cam s') = target p
         \<and> sqrt ((vx (position (cam s')) - vx (lookAt (cam s')))\<^sup>2
                 + (vz (position (cam s')) - vz (lookAt (cam s')))\<^sup>2) = radius (t_current s')
         \<and> 20 \<le> sqrt ((vx (position (cam s')) - vx (lookAt (cam s')))\<^sup>2
                        + (vz (position (cam s')) - vz (lookAt (cam s')))\<^sup>2)
         \<and> position (cam s') \<noteq> lookAt (cam s'))"
proof -
  define s' where "s' = useFrame p delta s"
  have r: "20 \<le> radius u" for u
    by (rule radius_ge_floor)
  have la: "lookAt (cam s') = target p"
    by (simp add: s'_def useFrame_def Let_def)
  have d: "sqrt ((vx (position (cam s')) - vx (target p))\<^sup>2
                 + (vz (position (cam s')) - vz (target p))\<^sup>2) = radius (t_current s')"
    unfolding s'_def horizontal_offset_sq
    using r [of "t_current (useFrame p delta s)"] by simp
  have ne: "position (cam s') \<noteq> target p"
  proof
    assume "position (cam s') = target p"
    with d have "radius (t_current s') = 0" by simp
    with r [of "t_current s'"] show False by simp
  qed
  have f: "radius t = max 20 (26 - 1.5 * min (1.2 * t) 6)"
    by (simp add: radius_def zoomFactor_def mult.commute)
  from r [of "t_current s'"] d
  have g: "20 \<le> sqrt ((vx (position (cam s')) - vx (target p))\<^sup>2
                       + (vz (position (cam s')) - vz (target p))\<^sup>2)"
    by simp
  show ?thesis
    unfolding Let_def s'_def [symmetric] la
    using f r [of t] d g ne by simp
qed

text \<open>
  C4. One frame replaces the accumulator \<open>t.current\<close> by
  \<open>t.current + delta * speed\<close>; when \<open>delta\<close> is non-negative and \<open>speed\<close> is
  positive, the new value is not below the old one.
\<close>

theorem C4_elapsed_monotone:
  assumes "0 \<le> delta" and "0 < speed p"
  shows "t_current (useFrame p delta s) = t_current s + delta * speed p
         \<and> t_current s \<le> t_current (useFrame p delta s)"
  using assms by (simp add: useFrame_def Let_def)

theorem C4_elapsed_monotone_witness:
  "(0::real) \<le> 1 / 60
   \<and> 0 < speed (FlyCamera_props \<lparr>target_in = None, speed_in = None, fov_in = None\<rparr>)
   \<and> t_current (useFrame (FlyCamera_props \<lparr>target_in = None, speed_in = None, fov_in = None\<rparr>)
                  (1 / 60)
                  (FlyCamera_mount
                     (FlyCamera_props \<lparr>target_in = None, speed_in = None, fov_in = None\<rparr>)
                     (Canvas_camera App_init))) = 1 / 400
   \<and> t_current (FlyCamera_mount
                   (FlyCamera_props \<lparr>target_in = None, speed_in = None, fov_in = None\<rparr>)
                   (Canvas_camera App_init)) \<le> 1 / 400"
proof -
  let ?p = "FlyCamera_props \<lparr>target_in = None, speed_in = None, fov_in = None\<rparr>"
  have a: "(0::real) \<le> 1 / 60"
    by simp
  have b: "0 < speed ?p"
    by (simp add: FlyCamera_props_def)
  show ?thesis
    using a b C4_elapsed_monotone [OF a b, of "FlyCamera_mount ?p (Canvas_camera App_init)"]
    by (simp add: FlyCamera_props_def FlyCamera_mount_def useEffect_fov_def)
qed

text \<open>
  C5. The zoom factor \<open>min (1.2 t) 6\<close> is at most 6 for every \<open>t\<close>. At \<open>t = 10\<close> it is
  exactly 6 and the radius is \<open>max 20 (26 - 9) = 20\<close>.
\<close>

theorem C5_zoom_saturates:
  "zoomFactor t = min (1.2 * t) 6
   \<and> zoomFactor t \<le> 6
   \<and> zoomFactor 10 = 6
   \<and> radius 10 = max 20 (26 - 9)
   \<and> radius 10 = 20"
  by (simp add: zoomFactor_def radius_def mult.commute)

text \<open>
  C7. The height \<open>12 + 3 sin (0.4 t)\<close> lies in \<open>[9, 15]\<close> for every \<open>t\<close>, and it is the
  vertical offset of the camera from the focus point after every frame.
\<close>

theorem C7_height_bounds:
  "height t = 12 + 3 * sin (0.4 * t)
   \<and> 9 \<le> height t \<and> height t \<le> 15
   \<and> (let s' = useFrame p delta s
      in vy (position (cam s')) - vy (target p) = height (t_current s')
         \<and> 9 \<le> vy (position (cam s')) - vy (target p)
         \<and> vy (position (cam s')) - vy (target p) \<le> 15)"
proof -
  have d: "vy (position (cam (useFrame p delta s))) - vy (target p)
           = height (t_current (useFrame p delta s))"
    by (simp add: useFrame_def Let_def vec_def)
  have f: "height t = 12 + 3 * sin (0.4 * t)"
    by (simp add: height_def mult.commute)
  show ?thesis
    unfolding Let_def d
    using f height_in_band [of t] height_in_band [of "t_current (useFrame p delta s)"]
    by simp
qed

text \<open>
  C8. A change of the speed prop between two frames leaves the accumulator as it is;
  the next frame of length \<open>d\<close> adds \<open>d\<close> times the new speed to it. What an earlier
  frame added under the old speed stays as it was added.
\<close>

theorem C8_speed_change_not_retroactive:
  "t_current (FlyCamera_rerender p1 p2 s) = t_current s
   \<and> t_current (useFrame p2 d (FlyCamera_rerender p1 p2 s)) = t_current s + d * speed p2
   \<and> t_current (useFrame p2 d (FlyCamera_rerender p1 p2 (useFrame p1 d1 s)))
       = (t_current s + d1 * speed p1) + d * speed p2"
  by (simp add: FlyCamera_rerender_def useEffect_fov_def useFrame_def Let_def)

text \<open>
  C9. The field of view does not enter the pose. Two prop sets that differ only in
  \<open>fov\<close> give the same position, the same look-at point and the same accumulator
  after a frame; the field of view already stored in the camera does not change them
  either. The effect that applies \<open>fov\<close> writes the camera's field of view and nothing
  else, and a frame leaves that field as it is.
\<close>

theorem C9_fov_not_in_pose:
  "position (cam (useFrame (p\<lparr>fov := f1\<rparr>) delta s))
     = position (cam (useFrame (p\<lparr>fov := f2\<rparr>) delta s))
   \<and> lookAt (cam (useFrame (p\<lparr>fov := f1\<rparr>) delta s))
     = lookAt (cam (useFrame (p\<lparr>fov := f2\<rparr>) delta s))
   \<and> t_current (useFrame (p\<lparr>fov := f1\<rparr>) delta s)
     = t_current (useFrame (p\<lparr>fov := f2\<rparr>) delta s)
   \<and> position (cam (useFrame p delta (useEffect_fov (p\<lparr>fov := f1\<rparr>) s)))
     = position (cam (useFrame p delta s))
   \<and> lookAt (cam (useFrame p delta (useEffect_fov (p\<lparr>fov := f1\<rparr>) s)))
     = lookAt (cam (useFrame p delta s))
   \<and> useEffect_fov (p\<lparr>fov := f1\<rparr>) s = s\<lparr>cam := (cam s)\<lparr>cam_fov := f1\<rparr>\<rparr>
   \<and> cam_fov (cam (useFrame p delta s)) = cam_fov (cam s)"
  by (simp add: useFrame_def Let_def useEffect_fov_def)

section \<open>Properties of the bounds computation\<close>

lemma expandByPoint_foldl:
  "\<exists>b'. foldl expandByPoint (Some b) ps = Some b'
        \<and> containsBox b' b
        \<and> (\<forall>p\<in>set ps. containsPoint b' p)
        \<and> (\<forall>c. containsBox c b \<and> (\<forall>p\<in>set ps. containsPoint c p) \<longrightarrow> containsBox c b')"
proof (induction ps arbitrary: b)
  case Nil
  show ?case
    by (simp add: containsBox_def)
next
  case (Cons q ps)
  let ?b1 = "\<lparr>box_min = vec_min (box_min b) q, box_max = vec_max (box_max b) q\<rparr>"
  from Cons.IH [of ?b1] obtain b' where
    f: "foldl expandByPoint (Some ?b1) ps = Some b'" and
    cb: "containsBox b' ?b1" and
    cp: "\<forall>p\<in>set ps. containsPoint b' p" and
    mn: "\<forall>c. containsBox c ?b1 \<and> (\<forall>p\<in>set ps. containsPoint c p) \<longrightarrow> containsBox c b'"
    by blast
  have 1: "containsBox b' b"
    using cb by (auto simp: containsBox_def vec_min_def vec_max_def vec_def)
  have 2: "containsPoint b' q"
    using cb by (auto simp: containsBox_def containsPoint_def vec_min_def vec_max_def vec_def)
  have 3: "containsBox c b'"
    if "containsBox c b" and "\<forall>p\<in>set (q # ps). containsPoint c p" for c
  proof -
    from that have "containsBox c ?b1"
      by (auto simp: containsBox_def containsPoint_def vec_min_def vec_max_def vec_def)
    with that mn show ?thesis by simp
  qed
  show ?case
    using f 1 2 3 cp by auto
qed

lemma setFromPoints_Cons:
  "\<exists>b. setFromPoints (q # ps) = Some b
       \<and> (\<forall>p\<in>set (q # ps). containsPoint b p)
       \<and> (\<forall>c. (\<forall>p\<in>set (q # ps). containsPoint c p) \<longrightarrow> containsBox c b)"
proof -
  let ?b0 = "\<lparr>box_min = q, box_max = q\<rparr>"
  from expandByPoint_foldl [of ?b0 ps] obtain b' where
    f: "foldl expandByPoint (Some ?b0) ps = Some b'" and
    cb: "containsBox b' ?b0" and
    cp: "\<forall>p\<in>set ps. containsPoint b' p" and
    mn: "\<forall>c. containsBox c ?b0 \<and> (\<forall>p\<in>set ps. containsPoint c p) \<longrightarrow> containsBox c b'"
    by blast
  have 1: "setFromPoints (q # ps) = Some b'"
    using f by (simp add: setFromPoints_def)
  have 2: "containsPoint b' q"
    using cb by (simp add: containsBox_def containsPoint_def)
  have 3: "containsBox c b'" if "\<forall>p\<in>set (q # ps). containsPoint c p" for c
  proof -
    from that have "containsBox c ?b0"
      by (simp add: containsBox_def containsPoint_def)
    with that mn show ?thesis by simp
  qed
  show ?thesis
    using 1 2 3 cp by auto
qed

lemma setFromPoints_cases:
  "(ps = [] \<and> setFromPoints ps = None)
   \<or> (\<exists>b. setFromPoints ps = Some b
        \<and> (\<forall>p\<in>set ps. containsPoint b p)
        \<and> (\<forall>c. (\<forall>p\<in>set ps. containsPoint c p) \<longrightarrow> containsBox c b))"
proof (cases ps)
  case Nil
  then show ?thesis by (simp add: setFromPoints_def)
next
  case (Cons q qs)
  with setFromPoints_Cons [of q qs] show ?thesis by simp
qed

lemma linear_lower:
  fixes a b c d x y z :: real
  assumes "x0 \<le> x" "x \<le> x1" "y0 \<le> y" "y \<le> y1" "z0 \<le> z" "z \<le> z1"
    and "L \<le> a * x0 + b * y0 + c * z0 + d" "L \<le> a * x0 + b * y0 + c * z1 + d"
    and "L \<le> a * x0 + b * y1 + c * z0 + d" "L \<le> a * x0 + b * y1 + c * z1 + d"
    and "L \<le> a * x1 + b * y0 + c * z0 + d" "L \<le> a * x1 + b * y0 + c * z1 + d"
    and "L \<le> a * x1 + b * y1 + c * z0 + d" "L \<le> a * x1 + b * y1 + c * z1 + d"
  shows "L \<le> a * x + b * y + c * z + d"
proof -
  have A: "a * x0 \<le> a * x \<or> a * x1 \<le> a * x"
    using assms(1,2) by (cases "0 \<le> a") (auto intro: mult_left_mono mult_left_mono_neg)
  have B: "b * y0 \<le> b * y \<or> b * y1 \<le> b * y"
    using assms(3,4) by (cases "0 \<le> b") (auto intro: mult_left_mono mult_left_mono_neg)
  have C: "c * z0 \<le> c * z \<or> c * z1 \<le> c * z"
    using assms(5,6) by (cases "0 \<le> c") (auto intro: mult_left_mono mult_left_mono_neg)
  from A B C assms(7-) show ?thesis
    by (elim disjE) linarith+
qed

lemma linear_upper:
  fixes a b c d x y z :: real
  assumes "x0 \<le> x" "x \<le> x1" "y0 \<le> y" "y \<le> y1" "z0 \<le> z" "z \<le> z1"
    and "a * x0 + b * y0 + c * z0 + d \<le> U" "a * x0 + b * y0 + c * z1 + d \<le> U"
    and "a * x0 + b * y1 + c * z0 + d \<le> U" "a * x0 + b * y1 + c * z1 + d \<le> U"
    and "a * x1 + b * y0 + c * z0 + d \<le> U" "a * x1 + b * y0 + c * z1 + d \<le> U"
    and "a * x1 + b * y1 + c * z0 + d \<le> U" "a * x1 + b * y1 + c * z1 + d \<le> U"
  shows "a * x + b * y + c * z + d \<le> U"
proof -
  have A: "a * x \<le> a * x0 \<or> a * x \<le> a * x1"
    using assms(1,2) by (cases "0 \<le> a") (auto intro: mult_left_mono mult_left_mono_neg)
  have B: "b * y \<le> b * y0 \<or> b * y \<le> b * y1"
    using assms(3,4) by (cases "0 \<le> b") (auto intro: mult_left_mono mult_left_mono_neg)
  have C: "c * z \<le> c * z0 \<or> c * z \<le> c * z1"
    using assms(5,6) by (cases "0 \<le> c") (auto intro: mult_left_mono mult_left_mono_neg)
  from A B C assms(7-) show ?thesis
    by (elim disjE) linarith+
qed

lemma corner_lower:
  assumes "containsPoint l v"
    and "\<forall>q\<in>set (corners l). L \<le> a * vx q + b * vy q + c * vz q + d"
  shows "L \<le> a * vx v + b * vy v + c * vz v + d"
proof -
  from assms(1) have r: "vx (box_min l) \<le> vx v" "vx v \<le> vx (box_max l)"
    "vy (box_min l) \<le> vy v" "vy v \<le> vy (box_max l)"
    "vz (box_min l) \<le> vz v" "vz v \<le> vz (box_max l)"
    by (simp_all add: containsPoint_def)
  from assms(2) have cs:
    "L \<le> a * vx (box_min l) + b * vy (box_min l) + c * vz (box_min l) + d"
    "L \<le> a * vx (box_min l) + b * vy (box_min l) + c * vz (box_max l) + d"
    "L \<le> a * vx (box_min l) + b * vy (box_max l) + c * vz (box_min l) + d"
    "L \<le> a * vx (box_min l) + b * vy (box_max l) + c * vz (box_max l) + d"
    "L \<le> a * vx (box_max l) + b * vy (box_min l) + c * vz (box_min l) + d"
    "L \<le> a * vx (box_max l) + b * vy (box_min l) + c * vz (box_max l) + d"
    "L \<le> a * vx (box_max l) + b * vy (box_max l) + c * vz (box_min l) + d"
    "L \<le> a * vx (box_max l) + b * vy (box_max l) + c * vz (box_max l) + d"
    by (simp_all add: corners_def vec_def)
  show ?thesis
    by (rule linear_lower [OF r cs])
qed

lemma corner_upper:
  assumes "containsPoint l v"
    and "\<forall>q\<in>set (corners l). a * vx q + b * vy q + c * vz q + d \<le> U"
  shows "a * vx v + b * vy v + c * vz v + d \<le> U"
proof -
  from assms(1) have r: "vx (box_min l) \<le> vx v" "vx v \<le> vx (box_max l)"
    "vy (box_min l) \<le> vy v" "vy v \<le> vy (box_max l)"
    "vz (box_min l) \<le> vz v" "vz v \<le> vz (box_max l)"
    by (simp_all add: containsPoint_def)
  from assms(2) have cs:
    "a * vx (box_min l) + b * vy (box_min l) + c * vz (box_min l) + d \<le> U"
    "a * vx (box_min l) + b * vy (box_min l) + c * vz (box_max l) + d \<le> U"
    "a * vx (box_min l) + b * vy (box_max l) + c * vz (box_min l) + d \<le> U"
    "a * vx (box_min l) + b * vy (box_max l) + c * vz (box_max l) + d \<le> U"
    "a * vx (box_max l) + b * vy (box_min l) + c * vz (box_min l) + d \<le> U"
    "a * vx (box_max l) + b * vy (box_min l) + c * vz (box_max l) + d \<le> U"
    "a * vx (box_max l) + b * vy (box_max l) + c * vz (box_min l) + d \<le> U"
    "a * vx (box_max l) + b * vy (box_max l) + c * vz (box_max l) + d \<le> U"
    by (simp_all add: corners_def vec_def)
  show ?thesis
    by (rule linear_upper [OF r cs])
qed

lemma corners_image_contains:
  assumes v: "containsPoint l v"
    and w: "\<forall>q\<in>set (corners l). containsPoint w (Vector3_applyMatrix4 m q)"
  shows "containsPoint w (Vector3_applyMatrix4 m v)"
proof -
  from w have x1: "\<forall>q\<in>set (corners l). vx (box_min w) \<le> m11 m * vx q + m12 m * vy q + m13 m * vz q + m14 m"
    and x2: "\<forall>q\<in>set (corners l). m11 m * vx q + m12 m * vy q + m13 m * vz q + m14 m \<le> vx (box_max w)"
    and y1: "\<forall>q\<in>set (corners l). vy (box_min w) \<le> m21 m * vx q + m22 m * vy q + m23 m * vz q + m24 m"
    and y2: "\<forall>q\<in>set (corners l). m21 m * vx q + m22 m * vy q + m23 m * vz q + m24 m \<le> vy (box_max w)"
    and z1: "\<forall>q\<in>set (corners l). vz (box_min w) \<le> m31 m * vx q + m32 m * vy q + m33 m * vz q + m34 m"
    and z2: "\<forall>q\<in>set (corners l). m31 m * vx q + m32 m * vy q + m33 m * vz q + m34 m \<le> vz (box_max w)"
    by (simp_all add: containsPoint_def Vector3_applyMatrix4_def vec_def)
  from corner_lower [OF v x1] corner_upper [OF v x2] corner_lower [OF v y1]
    corner_upper [OF v y2] corner_lower [OF v z1] corner_upper [OF v z2]
  show ?thesis
    by (simp add: containsPoint_def Vector3_applyMatrix4_def vec_def)
qed

lemma union_encloses_left: "encloses a p \<Longrightarrow> encloses (Box3_union a c) p"
  by (cases a; cases c)
     (auto simp: encloses_def containsPoint_def vec_min_def vec_max_def vec_def)

lemma union_encloses_right: "encloses c p \<Longrightarrow> encloses (Box3_union a c) p"
  by (cases a; cases c)
     (auto simp: encloses_def containsPoint_def vec_min_def vec_max_def vec_def)

lemma union_boxWithin: "boxWithin a c \<Longrightarrow> boxWithin x c \<Longrightarrow> boxWithin (Box3_union a x) c"
  by (cases a; cases x)
     (auto simp: boxWithin_def containsBox_def vec_min_def vec_max_def vec_def)

lemma setFromPoints_encloses: "p \<in> set ps \<Longrightarrow> encloses (setFromPoints ps) p"
  using setFromPoints_cases [of ps] by (auto simp: encloses_def)

lemma setFromPoints_boxWithin:
  "\<forall>p\<in>set ps. containsPoint c p \<Longrightarrow> boxWithin (setFromPoints ps) c"
  using setFromPoints_cases [of ps] by (auto simp: boxWithin_def)

lemma corners_not_Nil: "corners l \<noteq> []"
  by (simp add: corners_def)

lemma applied_encloses:
  assumes "v \<in> set vs"
  shows "encloses (Box3_applyMatrix4 (computeBoundingBox vs) m) (Vector3_applyMatrix4 m v)"
proof -
  from assms setFromPoints_encloses [of v vs] obtain l where
    l: "computeBoundingBox vs = Some l" and lv: "containsPoint l v"
    by (auto simp: encloses_def computeBoundingBox_def split: option.splits)
  let ?qs = "map (Vector3_applyMatrix4 m) (corners l)"
  have "\<forall>q\<in>set (corners l). encloses (setFromPoints ?qs) (Vector3_applyMatrix4 m q)"
    by (auto intro: setFromPoints_encloses)
  moreover from corners_not_Nil [of l] setFromPoints_cases [of ?qs]
  obtain w where w: "setFromPoints ?qs = Some w"
    by auto
  ultimately have "\<forall>q\<in>set (corners l). containsPoint w (Vector3_applyMatrix4 m q)"
    by (simp add: encloses_def)
  from corners_image_contains [OF lv this] l w show ?thesis
    by (simp add: Box3_applyMatrix4_def encloses_def)
qed

lemma foldl_expandByObject_encloses:
  "encloses acc p \<or> p \<in> set (worldPoints obj) \<Longrightarrow> encloses (foldl expandByObject acc obj) p"
proof (induction obj arbitrary: acc)
  case Nil
  then show ?case by (simp add: worldPoints_def)
next
  case (Cons me obj)
  from Cons.prems consider "encloses acc p"
    | v where "v \<in> set (vertices me)" "p = Vector3_applyMatrix4 (matrixWorld me) v"
    | "p \<in> set (worldPoints obj)"
    by (auto simp: worldPoints_def)
  then have "encloses (expandByObject acc me) p \<or> p \<in> set (worldPoints obj)"
  proof cases
    case 1
    then show ?thesis by (simp add: expandByObject_def union_encloses_left)
  next
    case 2
    then show ?thesis
      by (simp add: expandByObject_def union_encloses_right applied_encloses)
  next
    case 3
    then show ?thesis by simp
  qed
  from Cons.IH [OF this] show ?case by simp
qed

lemma cornerPoints_Cons:
  "cornerPoints (me # obj) =
     (case computeBoundingBox (vertices me) of
        None \<Rightarrow> []
      | Some l \<Rightarrow> map (Vector3_applyMatrix4 (matrixWorld me)) (corners l)) @ cornerPoints obj"
  by (simp add: cornerPoints_def)

lemma applied_encloses_corner:
  assumes "p \<in> set (case computeBoundingBox vs of
                        None \<Rightarrow> []
                      | Some l \<Rightarrow> map (Vector3_applyMatrix4 m) (corners l))"
  shows "encloses (Box3_applyMatrix4 (computeBoundingBox vs) m) p"
proof (cases "computeBoundingBox vs")
  case None
  with assms show ?thesis by simp
next
  case (Some l)
  with assms have "p \<in> set (map (Vector3_applyMatrix4 m) (corners l))"
    by simp
  from setFromPoints_encloses [OF this] Some show ?thesis
    by (simp add: Box3_applyMatrix4_def)
qed

lemma foldl_expandByObject_corner:
  "encloses acc p \<or> p \<in> set (cornerPoints obj) \<Longrightarrow> encloses (foldl expandByObject acc obj) p"
proof (induction obj arbitrary: acc)
  case Nil
  then show ?case by (simp add: cornerPoints_def)
next
  case (Cons me obj)
  from Cons.prems consider "encloses acc p"
    | "p \<in> set (case computeBoundingBox (vertices me) of
                      None \<Rightarrow> []
                    | Some l \<Rightarrow> map (Vector3_applyMatrix4 (matrixWorld me)) (corners l))"
    | "p \<in> set (cornerPoints obj)"
    unfolding cornerPoints_Cons by auto
  then have "encloses (expandByObject acc me) p \<or> p \<in> set (cornerPoints obj)"
  proof cases
    case 1
    then show ?thesis by (simp add: expandByObject_def union_encloses_left)
  next
    case 2
    from applied_encloses_corner [OF this] show ?thesis
      by (simp add: expandByObject_def union_encloses_right)
  next
    case 3
    then show ?thesis by simp
  qed
  from Cons.IH [OF this] show ?case by simp
qed

lemma foldl_expandByObject_boxWithin:
  "boxWithin acc c \<Longrightarrow> \<forall>p\<in>set (cornerPoints obj). containsPoint c p \<Longrightarrow>
   boxWithin (foldl expandByObject acc obj) c"
proof (induction obj arbitrary: acc)
  case Nil
  then show ?case by simp
next
  case (Cons me obj)
  have "boxWithin (Box3_applyMatrix4 (computeBoundingBox (vertices me)) (matrixWorld me)) c"
  proof (cases "computeBoundingBox (vertices me)")
    case None
    then show ?thesis by (simp add: Box3_applyMatrix4_def boxWithin_def)
  next
    case (Some l)
    with Cons.prems(2)
    have "\<forall>p\<in>set (map (Vector3_applyMatrix4 (matrixWorld me)) (corners l)). containsPoint c p"
      unfolding cornerPoints_Cons by simp
    from setFromPoints_boxWithin [OF this] Some show ?thesis
      by (simp add: Box3_applyMatrix4_def)
  qed
  with Cons.prems(1) have "boxWithin (expandByObject acc me) c"
    by (simp add: expandByObject_def union_boxWithin)
  moreover from Cons.prems(2) have "\<forall>p\<in>set (cornerPoints obj). containsPoint c p"
    unfolding cornerPoints_Cons by simp
  ultimately show ?case using Cons.IH by simp
qed

lemma foldl_expandByObject_no_vertices:
  "\<forall>me\<in>set obj. vertices me = [] \<Longrightarrow> foldl expandByObject acc obj = acc"
proof (induction obj arbitrary: acc)
  case Nil
  show ?case by simp
next
  case (Cons me obj)
  then have "expandByObject acc me = acc"
    by (cases acc)
       (simp_all add: expandByObject_def computeBoundingBox_def setFromPoints_def
          Box3_applyMatrix4_def)
  with Cons show ?case by simp
qed

lemma setFromObject_None_iff: "setFromObject obj = None \<longleftrightarrow> worldPoints obj = []"
proof
  assume n: "setFromObject obj = None"
  show "worldPoints obj = []"
  proof (rule ccontr)
    assume "worldPoints obj \<noteq> []"
    then obtain p where "p \<in> set (worldPoints obj)"
      by (cases "worldPoints obj") auto
    then have "encloses (setFromObject obj) p"
      unfolding setFromObject_def by (simp add: foldl_expandByObject_encloses)
    with n show False by (simp add: encloses_def)
  qed
next
  assume "worldPoints obj = []"
  then have "\<forall>me\<in>set obj. vertices me = []"
    by (auto simp: worldPoints_def)
  then show "setFromObject obj = None"
    unfolding setFromObject_def by (rule foldl_expandByObject_no_vertices)
qed

lemma vec_components: "vec (vx v) (vy v) (vz v) = v"
  by (simp add: vec_def)

lemma bounds_published:
  "useLayoutEffect_bounds (Some obj) (Some setTarget) sc
   = sc\<lparr>scene_target := getCenter (setFromObject obj)\<rparr>"
  by (simp add: useLayoutEffect_bounds_def Let_def setTarget_def vec_components)

lemma spec_box_minimal:
  assumes "worldPoints obj \<noteq> []"
  shows "\<exists>b. setFromPoints (worldPoints obj) = Some b
             \<and> (\<forall>p\<in>set (worldPoints obj). containsPoint b p)
             \<and> (\<forall>c. (\<forall>p\<in>set (worldPoints obj). containsPoint c p) \<longrightarrow> containsBox c b)"
  using assms setFromPoints_cases [of "worldPoints obj"] by simp

text \<open>
  C2, as stated, fails: the default focus point of the scene is \<open>(0, 0.5, 0)\<close>, and a
  mesh without vertices under the scene's transform has an empty box; the layout effect
  then publishes \<open>(0, 0, 0)\<close>. Before the effect the camera looks at \<open>(0, 0.5, 0)\<close>,
  after it at \<open>(0, 0, 0)\<close>: it does not go on circling the default it had.
\<close>

theorem C2_empty_bounds_default_counterexample:
  "setFromObject [\<lparr>matrixWorld = Scene_model_matrix, vertices = []\<rparr>] = None
   \<and> scene_target Scene_init = vec 0 0.5 0
   \<and> lookAt (cam (useFrame (Scene_props App_init Scene_init) (1 / 60)
        (FlyCamera_mount (Scene_props App_init Scene_init) (Canvas_camera App_init))))
       = vec 0 0.5 0
   \<and> scene_target (useLayoutEffect_bounds
        (Some [\<lparr>matrixWorld = Scene_model_matrix, vertices = []\<rparr>]) (Some setTarget) Scene_init)
       = vec 0 0 0
   \<and> lookAt (cam (useFrame
        (Scene_props App_init (useLayoutEffect_bounds
           (Some [\<lparr>matrixWorld = Scene_model_matrix, vertices = []\<rparr>]) (Some setTarget) Scene_init))
        (1 / 60)
        (useFrame (Scene_props App_init Scene_init) (1 / 60)
           (FlyCamera_mount (Scene_props App_init Scene_init) (Canvas_camera App_init)))))
       = vec 0 0 0
   \<and> scene_target (useLayoutEffect_bounds
        (Some [\<lparr>matrixWorld = Scene_model_matrix, vertices = []\<rparr>]) (Some setTarget) Scene_init)
       \<noteq> scene_target Scene_init"
proof -
  have n: "setFromObject [\<lparr>matrixWorld = Scene_model_matrix, vertices = []\<rparr>] = None"
    by (simp add: setFromObject_def expandByObject_def computeBoundingBox_def setFromPoints_def
        Box3_applyMatrix4_def)
  show ?thesis
    by (simp add: n bounds_published getCenter_def Scene_init_def Scene_props_def
        FlyCamera_props_def useFrame_def Let_def vec_def)
qed

text \<open>
  C2, amended. When the box of the loaded object is empty, the layout effect, which has
  no check of its own, publishes the centre that \<^verbatim>\<open>getCenter\<close> reports for an empty
  box, the fixed point \<open>(0, 0, 0)\<close>, whatever the target was before. A frame of length
  \<open>delta\<close> that starts with the accumulator at \<open>t0\<close> then leaves
  \<open>t = t0 + delta * flySpeed\<close> in it, makes the camera look at \<open>(0, 0, 0)\<close> and puts
  it at \<open>(cos (0.3 t) r, 12 + 3 sin (0.4 t), sin (0.3 t) r)\<close> with
  \<open>r = max 20 (26 - 1.5 min (1.2 t) 6)\<close>.
\<close>

theorem C2_empty_bounds_default:
  assumes "setFromObject obj = None"
  shows "(let sc' = useLayoutEffect_bounds (Some obj) (Some setTarget) sc;
              t = t_current s + delta * flySpeed a;
              r = max 20 (26 - 1.5 * min (1.2 * t) 6);
              s' = useFrame (Scene_props a sc') delta s
          in sc' = sc\<lparr>scene_target := vec 0 0 0\<rparr>
             \<and> t_current s' = t
             \<and> lookAt (cam s') = vec 0 0 0
             \<and> position (cam s') =
                 vec (cos (0.3 * t) * r) (12 + 3 * sin (0.4 * t)) (sin (0.3 * t) * r))"
  using assms
  by (simp add: bounds_published getCenter_def Scene_props_def FlyCamera_props_def
      useFrame_def Let_def orbitAngle_def zoomFactor_def radius_def height_def vec_def
      mult.commute)

theorem C2_empty_bounds_default_witness:
  "setFromObject [\<lparr>matrixWorld = Matrix4_identity, vertices = []\<rparr>] = None
   \<and> useLayoutEffect_bounds (Some [\<lparr>matrixWorld = Matrix4_identity, vertices = []\<rparr>])
        (Some setTarget) Scene_init = \<lparr>scene_target = vec 0 0 0\<rparr>
   \<and> t_current (useFrame
        (Scene_props App_init (useLayoutEffect_bounds
           (Some [\<lparr>matrixWorld = Matrix4_identity, vertices = []\<rparr>]) (Some setTarget) Scene_init))
        (1 / 60)
        (FlyCamera_mount (Scene_props App_init Scene_init) (Canvas_camera App_init))) = 1 / 400
   \<and> lookAt (cam (useFrame
        (Scene_props App_init (useLayoutEffect_bounds
           (Some [\<lparr>matrixWorld = Matrix4_identity, vertices = []\<rparr>]) (Some setTarget) Scene_init))
        (1 / 60)
        (FlyCamera_mount (Scene_props App_init Scene_init) (Canvas_camera App_init)))) = vec 0 0 0"
proof -
  let ?obj = "[\<lparr>matrixWorld = Matrix4_identity, vertices = []\<rparr>]"
  let ?s = "FlyCamera_mount (Scene_props App_init Scene_init) (Canvas_camera App_init)"
  have h: "setFromObject ?obj = None"
    by (simp add: setFromObject_def expandByObject_def computeBoundingBox_def setFromPoints_def
        Box3_applyMatrix4_def)
  from C2_empty_bounds_default [OF h, of Scene_init ?s "1 / 60" App_init]
  have 1: "useLayoutEffect_bounds (Some ?obj) (Some setTarget) Scene_init
             = Scene_init\<lparr>scene_target := vec 0 0 0\<rparr>"
    and 2: "t_current (useFrame
              (Scene_props App_init (useLayoutEffect_bounds (Some ?obj) (Some setTarget) Scene_init))
              (1 / 60) ?s) = t_current ?s + 1 / 60 * flySpeed App_init"
    and 3: "lookAt (cam (useFrame
              (Scene_props App_init (useLayoutEffect_bounds (Some ?obj) (Some setTarget) Scene_init))
              (1 / 60) ?s)) = vec 0 0 0"
    unfolding Let_def by blast+
  have 4: "Scene_init\<lparr>scene_target := vec 0 0 0\<rparr> = \<lparr>scene_target = vec 0 0 0\<rparr>"
    by (simp add: Scene_init_def)
  have 5: "t_current ?s + 1 / 60 * flySpeed App_init = 1 / 400"
    by (simp add: FlyCamera_mount_def useEffect_fov_def App_init_def)
  from h 1 2 3 4 5 show ?thesis
    by (simp only: simp_thms)
qed

text \<open>
  C6, as stated, fails: take one triangle with the vertices \<open>(0, 0, 0)\<close>, \<open>(2, 0, 0)\<close>,
  \<open>(0, 0, 2)\<close> under the transform the scene gives the model. The minimal box of its
  three world-space vertices reaches \<open>7 sqrt 2 / 2\<close> on the x axis, the box computed
  reaches \<open>7 sqrt 2\<close>, so it is not inside that enclosing box, and the focus point
  published, \<open>(7 sqrt 2 / 2, -2.5, 0)\<close>, is not the centre \<open>(7 sqrt 2 / 4, -2.5, 0)\<close>
  of the minimal box.
\<close>

theorem C6_bounds_center_counterexample:
  "worldPoints [\<lparr>matrixWorld = Scene_model_matrix, vertices = [vec 0 0 0, vec 2 0 0, vec 0 0 2]\<rparr>]
     = [vec 0 (- 2.5) 0,
        vec (7 * sqrt 2 / 2) (- 2.5) (- (7 * sqrt 2 / 2)),
        vec (7 * sqrt 2 / 2) (- 2.5) (7 * sqrt 2 / 2)]
   \<and> setFromPoints (worldPoints
        [\<lparr>matrixWorld = Scene_model_matrix, vertices = [vec 0 0 0, vec 2 0 0, vec 0 0 2]\<rparr>])
     = Some \<lparr>box_min = vec 0 (- 2.5) (- (7 * sqrt 2 / 2)),
             box_max = vec (7 * sqrt 2 / 2) (- 2.5) (7 * sqrt 2 / 2)\<rparr>
   \<and> setFromObject
        [\<lparr>matrixWorld = Scene_model_matrix, vertices = [vec 0 0 0, vec 2 0 0, vec 0 0 2]\<rparr>]
     = Some \<lparr>box_min = vec 0 (- 2.5) (- (7 * sqrt 2 / 2)),
             box_max = vec (7 * sqrt 2) (- 2.5) (7 * sqrt 2 / 2)\<rparr>
   \<and> \<not> containsBox
         \<lparr>box_min = vec 0 (- 2.5) (- (7 * sqrt 2 / 2)),
          box_max = vec (7 * sqrt 2 / 2) (- 2.5) (7 * sqrt 2 / 2)\<rparr>
         \<lparr>box_min = vec 0 (- 2.5) (- (7 * sqrt 2 / 2)),
          box_max = vec (7 * sqrt 2) (- 2.5) (7 * sqrt 2 / 2)\<rparr>
   \<and> scene_target (useLayoutEffect_bounds
        (Some [\<lparr>matrixWorld = Scene_model_matrix, vertices = [vec 0 0 0, vec 2 0 0, vec 0 0 2]\<rparr>])
        (Some setTarget) Scene_init)
     = vec (7 * sqrt 2 / 2) (- 2.5) 0
   \<and> spec_computeFocus
        [\<lparr>matrixWorld = Scene_model_matrix, vertices = [vec 0 0 0, vec 2 0 0, vec 0 0 2]\<rparr>]
     = vec (7 * sqrt 2 / 4) (- 2.5) 0
   \<and> scene_target (useLayoutEffect_bounds
        (Some [\<lparr>matrixWorld = Scene_model_matrix, vertices = [vec 0 0 0, vec 2 0 0, vec 0 0 2]\<rparr>])
        (Some setTarget) Scene_init)
     \<noteq> spec_computeFocus
        [\<lparr>matrixWorld = Scene_model_matrix, vertices = [vec 0 0 0, vec 2 0 0, vec 0 0 2]\<rparr>]"
proof -
  let ?tri = "[\<lparr>matrixWorld = Scene_model_matrix, vertices = [vec 0 0 0, vec 2 0 0, vec 0 0 2]\<rparr>]"
  have w: "worldPoints ?tri
     = [vec 0 (- 2.5) 0,
        vec (7 * sqrt 2 / 2) (- 2.5) (- (7 * sqrt 2 / 2)),
        vec (7 * sqrt 2 / 2) (- 2.5) (7 * sqrt 2 / 2)]"
    by (simp add: worldPoints_def Scene_model_matrix_def Vector3_applyMatrix4_def vec_def
        cos_45 sin_45)
  have m: "setFromPoints (worldPoints ?tri)
     = Some \<lparr>box_min = vec 0 (- 2.5) (- (7 * sqrt 2 / 2)),
             box_max = vec (7 * sqrt 2 / 2) (- 2.5) (7 * sqrt 2 / 2)\<rparr>"
    unfolding w by (simp add: setFromPoints_def vec_min_def vec_max_def vec_def)
  have c: "setFromObject ?tri
     = Some \<lparr>box_min = vec 0 (- 2.5) (- (7 * sqrt 2 / 2)),
             box_max = vec (7 * sqrt 2) (- 2.5) (7 * sqrt 2 / 2)\<rparr>"
    by (simp add: setFromObject_def expandByObject_def computeBoundingBox_def
        setFromPoints_def Box3_applyMatrix4_def corners_def Vector3_applyMatrix4_def
        Scene_model_matrix_def vec_min_def vec_max_def vec_def cos_45 sin_45)
  have n: "\<not> containsBox
         \<lparr>box_min = vec 0 (- 2.5) (- (7 * sqrt 2 / 2)),
          box_max = vec (7 * sqrt 2 / 2) (- 2.5) (7 * sqrt 2 / 2)\<rparr>
         \<lparr>box_min = vec 0 (- 2.5) (- (7 * sqrt 2 / 2)),
          box_max = vec (7 * sqrt 2) (- 2.5) (7 * sqrt 2 / 2)\<rparr>"
    by (simp add: containsBox_def vec_def)
  have p: "scene_target (useLayoutEffect_bounds (Some ?tri) (Some setTarget) Scene_init)
     = vec (7 * sqrt 2 / 2) (- 2.5) 0"
    unfolding bounds_published c by (simp add: getCenter_def vec_def)
  have f: "spec_computeFocus ?tri = vec (7 * sqrt 2 / 4) (- 2.5) 0"
    unfolding spec_computeFocus_def m by (simp add: getCenter_def vec_def)
  have d: "scene_target (useLayoutEffect_bounds (Some ?tri) (Some setTarget) Scene_init)
     \<noteq> spec_computeFocus ?tri"
    unfolding p f by (simp add: vec_def)
  from w m c n p f d show ?thesis
    by (simp only: simp_thms)
qed

text \<open>
  C6, amended. For an object with at least one vertex, the layout effect publishes the
  geometric centre (the midpoint of the two corners) of the box computed, and that box
  is the minimal axis-aligned box enclosing the transformed corners of the local
  bounding boxes of the object's meshes: it encloses each of them and lies inside every
  box that does. It encloses every point of the object's world-space geometry. For the
  cube with extent \<open>[4, 6]\<close> on each axis, given by its eight corners under the
  identity transform, the published focus point is \<open>(5, 5, 5)\<close>.
\<close>

theorem C6_bounds_center:
  assumes "worldPoints obj \<noteq> []"
  shows "(\<exists>b. setFromObject obj = Some b
           \<and> (\<forall>p\<in>set (cornerPoints obj). containsPoint b p)
           \<and> (\<forall>c. (\<forall>p\<in>set (cornerPoints obj). containsPoint c p) \<longrightarrow> containsBox c b)
           \<and> (\<forall>p\<in>set (worldPoints obj). containsPoint b p)
           \<and> useLayoutEffect_bounds (Some obj) (Some setTarget) sc =
               sc\<lparr>scene_target := vec ((vx (box_min b) + vx (box_max b)) / 2)
                                        ((vy (box_min b) + vy (box_max b)) / 2)
                                        ((vz (box_min b) + vz (box_max b)) / 2)\<rparr>)
         \<and> useLayoutEffect_bounds
             (Some [\<lparr>matrixWorld = Matrix4_identity,
                     vertices = [vec 4 4 4, vec 6 4 4, vec 4 6 4, vec 6 6 4,
                                 vec 4 4 6, vec 6 4 6, vec 4 6 6, vec 6 6 6]\<rparr>])
             (Some setTarget) sc = sc\<lparr>scene_target := vec 5 5 5\<rparr>"
proof -
  from assms obtain b where b: "setFromObject obj = Some b"
    using setFromObject_None_iff [of obj] by (cases "setFromObject obj") auto
  have 1: "\<forall>p\<in>set (cornerPoints obj). containsPoint b p"
  proof
    fix p assume "p \<in> set (cornerPoints obj)"
    then have "encloses (foldl expandByObject None obj) p"
      by (simp add: foldl_expandByObject_corner)
    with b show "containsPoint b p"
      by (simp add: setFromObject_def encloses_def)
  qed
  have 2: "\<forall>c. (\<forall>p\<in>set (cornerPoints obj). containsPoint c p) \<longrightarrow> containsBox c b"
  proof (intro allI impI)
    fix c assume "\<forall>p\<in>set (cornerPoints obj). containsPoint c p"
    then have "boxWithin (foldl expandByObject None obj) c"
      by (intro foldl_expandByObject_boxWithin) (simp_all add: boxWithin_def)
    with b show "containsBox c b"
      by (simp add: setFromObject_def boxWithin_def)
  qed
  have 3: "\<forall>p\<in>set (worldPoints obj). containsPoint b p"
  proof
    fix p assume "p \<in> set (worldPoints obj)"
    then have "encloses (foldl expandByObject None obj) p"
      by (simp add: foldl_expandByObject_encloses)
    with b show "containsPoint b p"
      by (simp add: setFromObject_def encloses_def)
  qed
  have 4: "useLayoutEffect_bounds (Some obj) (Some setTarget) sc =
          sc\<lparr>scene_target := vec ((vx (box_min b) + vx (box_max b)) / 2)
                                   ((vy (box_min b) + vy (box_max b)) / 2)
                                   ((vz (box_min b) + vz (box_max b)) / 2)\<rparr>"
    by (simp add: bounds_published b getCenter_def)
  from b 1 2 3 4 have g: "\<exists>b. setFromObject obj = Some b
           \<and> (\<forall>p\<in>set (cornerPoints obj). containsPoint b p)
           \<and> (\<forall>c. (\<forall>p\<in>set (cornerPoints obj). containsPoint c p) \<longrightarrow> containsBox c b)
           \<and> (\<forall>p\<in>set (worldPoints obj). containsPoint b p)
           \<and> useLayoutEffect_bounds (Some obj) (Some setTarget) sc =
               sc\<lparr>scene_target := vec ((vx (box_min b) + vx (box_max b)) / 2)
                                        ((vy (box_min b) + vy (box_max b)) / 2)
                                        ((vz (box_min b) + vz (box_max b)) / 2)\<rparr>"
    by blast
  have c: "useLayoutEffect_bounds
             (Some [\<lparr>matrixWorld = Matrix4_identity,
                     vertices = [vec 4 4 4, vec 6 4 4, vec 4 6 4, vec 6 6 4,
                                 vec 4 4 6, vec 6 4 6, vec 4 6 6, vec 6 6 6]\<rparr>])
             (Some setTarget) sc = sc\<lparr>scene_target := vec 5 5 5\<rparr>"
    by (simp add: bounds_published setFromObject_def expandByObject_def computeBoundingBox_def
        setFromPoints_def Box3_applyMatrix4_def corners_def Vector3_applyMatrix4_def
        Matrix4_identity_def getCenter_def vec_min_def vec_max_def vec_def)
  from g c show ?thesis
    by (rule conjI)
qed

theorem C6_bounds_center_witness:
  "worldPoints [\<lparr>matrixWorld = Matrix4_identity, vertices = [vec 1 2 3, vec (- 1) 4 0]\<rparr>] \<noteq> []
   \<and> setFromObject [\<lparr>matrixWorld = Matrix4_identity, vertices = [vec 1 2 3, vec (- 1) 4 0]\<rparr>]
       = Some \<lparr>box_min = vec (- 1) 2 0, box_max = vec 1 4 3\<rparr>
   \<and> useLayoutEffect_bounds
        (Some [\<lparr>matrixWorld = Matrix4_identity, vertices = [vec 1 2 3, vec (- 1) 4 0]\<rparr>])
        (Some setTarget) Scene_init
       = \<lparr>scene_target = vec 0 3 1.5\<rparr>"
proof -
  let ?obj = "[\<lparr>matrixWorld = Matrix4_identity, vertices = [vec 1 2 3, vec (- 1) 4 0]\<rparr>]"
  have h: "worldPoints ?obj \<noteq> []"
    by (simp add: worldPoints_def)
  have s: "setFromObject ?obj = Some \<lparr>box_min = vec (- 1) 2 0, box_max = vec 1 4 3\<rparr>"
    by (simp add: setFromObject_def expandByObject_def computeBoundingBox_def
        setFromPoints_def Box3_applyMatrix4_def corners_def Vector3_applyMatrix4_def
        Matrix4_identity_def vec_min_def vec_max_def vec_def)
  show ?thesis
    using h s C6_bounds_center [OF h, of Scene_init]
    by (auto simp: Scene_init_def vec_def)
qed

section \<open>Properties of the speed slider\<close>

lemma range_values_member:
  "k \<le> nat \<lfloor>(hi - lo) / st\<rfloor> \<Longrightarrow> v = lo + real k * st \<Longrightarrow> v \<in> set (range_values lo hi st)"
  unfolding range_values_def by (auto intro!: image_eqI [where x = k])

lemma speed_slider_bounds:
  assumes "v \<in> set (range_values 0.05 0.35 0.01)"
  shows "0.05 \<le> v \<and> v \<le> 0.35"
proof -
  from assms obtain k :: nat where k: "k < 31" and v: "v = 0.05 + real k * 0.01"
    by (auto simp: range_values_def)
  from k have "real k \<le> 30"
    by simp
  with v show ?thesis
    by simp
qed

lemma onChange_keeps_speed_bounds:
  assumes "\<forall>e\<in>set es. slider_event e"
    and "0.05 \<le> flySpeed a \<and> flySpeed a \<le> 0.35"
  shows "0.05 \<le> flySpeed (foldl (\<lambda>a e. onChange e a) a es)
         \<and> flySpeed (foldl (\<lambda>a e. onChange e a) a es) \<le> 0.35"
  using assms
proof (induction es arbitrary: a)
  case Nil
  then show ?case
    by simp
next
  case (Cons e es)
  have "0.05 \<le> flySpeed (onChange e a) \<and> flySpeed (onChange e a) \<le> 0.35"
  proof (cases e)
    case (SpeedChange v)
    with Cons.prems(1) have "v \<in> set (range_values 0.05 0.35 0.01)"
      by simp
    from speed_slider_bounds [OF this] SpeedChange show ?thesis
      by simp
  next
    case (PerspectiveChange v)
    with Cons.prems(2) show ?thesis
      by simp
  qed
  moreover from Cons.prems(1) have "\<forall>e\<in>set es. slider_event e"
    by simp
  ultimately show ?case
    using Cons.IH by simp
qed

text \<open>
  C10. After any sequence of events that the two sliders can emit, starting from the
  initial state (speed 0.15), the flyover speed lies in \<open>[0.05, 0.35]\<close>; the speed the
  camera receives is therefore positive, and a frame of positive length makes the
  accumulator strictly larger.
\<close>

theorem C10_slider_speed_positive:
  assumes "\<forall>e\<in>set es. slider_event e" and "0 < delta"
  shows "flySpeed App_init = 0.15
         \<and> 0.05 \<le> flySpeed (App_run es) \<and> flySpeed (App_run es) \<le> 0.35
         \<and> speed (Scene_props (App_run es) sc) = flySpeed (App_run es)
         \<and> 0 < speed (Scene_props (App_run es) sc)
         \<and> t_current s < t_current (useFrame (Scene_props (App_run es) sc) delta s)"
proof -
  have b: "0.05 \<le> flySpeed (App_run es) \<and> flySpeed (App_run es) \<le> 0.35"
    unfolding App_run_def
    by (rule onChange_keeps_speed_bounds [OF assms(1)]) (simp add: App_init_def)
  have e: "speed (Scene_props (App_run es) sc) = flySpeed (App_run es)"
    by (simp add: Scene_props_def FlyCamera_props_def)
  with b have p: "0 < speed (Scene_props (App_run es) sc)"
    by simp
  with assms(2) have "0 < delta * speed (Scene_props (App_run es) sc)"
    by simp
  then have "t_current s < t_current (useFrame (Scene_props (App_run es) sc) delta s)"
    by (simp add: useFrame_def Let_def)
  with b e p show ?thesis
    by (simp add: App_init_def)
qed

theorem C10_slider_speed_positive_witness:
  "slider_event (SpeedChange 0.2) \<and> slider_event (PerspectiveChange 60)
   \<and> (0::real) < 1 / 60
   \<and> flySpeed (App_run [SpeedChange 0.2, PerspectiveChange 60]) = 0.2
   \<and> t_current (FlyCamera_mount (Scene_props App_init Scene_init) (Canvas_camera App_init))
       < t_current (useFrame (Scene_props (App_run [SpeedChange 0.2, PerspectiveChange 60]) Scene_init)
                      (1 / 60)
                      (FlyCamera_mount (Scene_props App_init Scene_init) (Canvas_camera App_init)))"
proof -
  have 1: "0.2 \<in> set (range_values 0.05 0.35 0.01)"
    by (rule range_values_member [where k = 15]) simp_all
  have 2: "60 \<in> set (range_values 50 100 1)"
    by (rule range_values_member [where k = 10]) simp_all
  have h: "\<forall>e\<in>set [SpeedChange 0.2, PerspectiveChange 60]. slider_event e"
    using 1 2 by simp
  have d: "(0::real) < 1 / 60"
    by simp
  show ?thesis
    using 1 2 C10_slider_speed_positive [OF h d, of Scene_init
        "FlyCamera_mount (Scene_props App_init Scene_init) (Canvas_camera App_init)"]
    by (simp add: App_run_def App_init_def)
qed

end
